theory Spec2Isabelle
  imports Main "HOL-Library.Sublist"
begin

section \<open>Forklift: repository selection and clone orchestration\<close>

text \<open>
  The development embeds three parts of the program: the selection engine of the main
  package (\<open>selectRepositories\<close>, \<open>tryLanguageFilter\<close>, \<open>selectDevRepositories\<close>,
  \<open>parseSelection\<close>), the per-item clone loop of \<open>runForklift\<close>, and the clone
  orchestrator \<open>HarvestRepository\<close> of package \<open>harvester\<close>.

  A Go \<open>string\<close> is a sequence of bytes, which is what \<^typ>\<open>string\<close> is. A Go \<open>int\<close> is
  modelled by \<^typ>\<open>int\<close>; the only arithmetic on it is the comparison of parsed numbers
  with the length of the collection and the range loop below that length, so no
  operation can leave the 64-bit range (\<open>strconv.Atoi\<close> itself rejects numbers outside
  it, and that check is part of the model).
\<close>

subsection \<open>The functions of the Go standard library that the code calls\<close>

text \<open>
  \<open>strings.ToLower\<close>, byte by byte: the letters \<open>A\<close> to \<open>Z\<close> are mapped to \<open>a\<close> to \<open>z\<close> and
  every other byte is kept. This is what Go computes on ASCII text; bytes from 128 on
  (UTF-8 sequences of letters outside ASCII) are left as they are here.
\<close>

definition toLowerByte :: "char \<Rightarrow> char" where
  "toLowerByte c =
     (case map_of (zip ''ABCDEFGHIJKLMNOPQRSTUVWXYZ'' ''abcdefghijklmnopqrstuvwxyz'') c of
        Some l \<Rightarrow> l
      | None \<Rightarrow> c)"

definition strings_ToLower :: "string \<Rightarrow> string" where
  "strings_ToLower s = map toLowerByte s"

text \<open>
  \<open>strings.TrimSpace\<close>: leading and trailing white space is removed. The white space of
  ASCII is tab, line feed, vertical tab, form feed, carriage return and space; the
  white space that Unicode adds outside ASCII is not removed here.
\<close>

definition isSpace :: "char \<Rightarrow> bool" where
  "isSpace c \<longleftrightarrow> c \<in> set [CHR 0x09, CHR 0x0A, CHR 0x0B, CHR 0x0C, CHR 0x0D, CHR 0x20]"

definition strings_TrimSpace :: "string \<Rightarrow> string" where
  "strings_TrimSpace s = rev (dropWhile isSpace (rev (dropWhile isSpace s)))"

text \<open>
  \<open>strings.Split(s, sep)\<close> for a separator of one byte, the only use the code makes of
  it: the pieces between the occurrences of the separator, empty pieces included, so
  that a string with \<open>n\<close> separators has \<open>n + 1\<close> pieces.
\<close>

fun strings_Split :: "string \<Rightarrow> char \<Rightarrow> string list" where
  "strings_Split [] sep = [[]]"
| "strings_Split (c # cs) sep =
     (if c = sep then [] # strings_Split cs sep
      else (case strings_Split cs sep of
              [] \<Rightarrow> [[c]]
            | p # ps \<Rightarrow> (c # p) # ps))"

text \<open>\<open>strings.Contains(s, substr)\<close>: \<open>substr\<close> occurs in \<open>s\<close> as a block of adjacent bytes.\<close>

fun strings_Contains :: "string \<Rightarrow> string \<Rightarrow> bool" where
  "strings_Contains [] substr = (substr = [])"
| "strings_Contains (c # cs) substr =
     (prefix substr (c # cs) \<or> strings_Contains cs substr)"

text \<open>
  \<open>strconv.Atoi\<close>: an optional sign \<open>+\<close> or \<open>-\<close>, then at least one decimal digit and
  nothing else; the value must fit a signed 64-bit integer. Every other string is an
  error, which is \<open>None\<close> here (the code only tests \<open>err == nil\<close>).
\<close>

definition digitVal :: "char \<Rightarrow> nat option" where
  "digitVal c = map_of (zip ''0123456789'' [0, 1, 2, 3, 4, 5, 6, 7, 8, 9]) c"

fun parseDigits :: "nat \<Rightarrow> string \<Rightarrow> nat option" where
  "parseDigits n [] = Some n"
| "parseDigits n (c # cs) =
     (case digitVal c of
        None \<Rightarrow> None
      | Some d \<Rightarrow> parseDigits (n * 10 + d) cs)"

definition parseUnsigned :: "string \<Rightarrow> nat option" where
  "parseUnsigned s = (if s = [] then None else parseDigits 0 s)"

definition strconv_Atoi :: "string \<Rightarrow> int option" where
  "strconv_Atoi s =
     (case s of
        [] \<Rightarrow> None
      | c # cs \<Rightarrow>
          if c = CHR ''-'' then
            (case parseUnsigned cs of
               None \<Rightarrow> None
             | Some n \<Rightarrow> if int n \<le> 2 ^ 63 then Some (- int n) else None)
          else
            (case parseUnsigned (if c = CHR ''+'' then cs else s) of
               None \<Rightarrow> None
             | Some n \<Rightarrow> if int n < 2 ^ 63 then Some (int n) else None))"

subsection \<open>The repository record of package \<open>forge\<close>\<close>

record Repository =
  Name :: string
  Description :: string
  CloneURL :: string
  SSHURL :: string
  Language :: string
  Stars :: int
  Size :: int

subsection \<open>\<open>parseSelection\<close>\<close>

text \<open>
  One round of the loop over the comma-separated parts: the indices (0-based) that one
  part contributes. A part with a \<open>-\<close> is a range and counts only when splitting at
  \<open>-\<close> gives exactly two pieces that both parse, with
  \<open>0 < start \<le> end \<le> maxLen\<close>; any other part is a single number and counts only when
  it parses and \<open>0 < num \<le> maxLen\<close>. Everything else contributes nothing.
\<close>

definition parsePart :: "string \<Rightarrow> int \<Rightarrow> int list" where
  "parsePart part0 maxLen =
     (let part = strings_TrimSpace part0 in
      if strings_Contains part ''-'' then
        (case strings_Split part CHR ''-'' of
           [p0, p1] \<Rightarrow>
             (case (strconv_Atoi (strings_TrimSpace p0), strconv_Atoi (strings_TrimSpace p1)) of
                (Some start, Some end) \<Rightarrow>
                  if start > 0 \<and> end > 0 \<and> start \<le> maxLen \<and> end \<le> maxLen \<and> start \<le> end
                  then map (\<lambda>i. i - 1) [start..end]
                  else []
              | _ \<Rightarrow> [])
         | _ \<Rightarrow> [])
      else
        (case strconv_Atoi part of
           Some num \<Rightarrow> if num > 0 \<and> num \<le> maxLen then [num - 1] else []
         | None \<Rightarrow> []))"

fun parseParts :: "int list \<Rightarrow> string list \<Rightarrow> int \<Rightarrow> int list" where
  "parseParts indices [] maxLen = indices"
| "parseParts indices (part # parts) maxLen =
     parseParts (indices @ parsePart part maxLen) parts maxLen"

definition parseSelection :: "string \<Rightarrow> int \<Rightarrow> int list" where
  "parseSelection input maxLen = parseParts [] (strings_Split input CHR '','') maxLen"

subsection \<open>The language filter and the development heuristic\<close>

text \<open>
  \<open>tryLanguageFilter\<close> returns \<open>nil\<close> when no repository matches, which the caller
  tests; \<open>nil\<close> is \<open>None\<close> here.
\<close>

definition tryLanguageFilter :: "Repository list \<Rightarrow> string \<Rightarrow> Repository list option" where
  "tryLanguageFilter repos input =
     (let inputLower = strings_ToLower input;
          matches = filter (\<lambda>repo. strings_ToLower (Language repo) = inputLower) repos
      in if length matches > 0 then Some matches else None)"

definition filterByLanguage :: "Repository list \<Rightarrow> string \<Rightarrow> Repository list" where
  "filterByLanguage repos language =
     (let targetLang = strings_ToLower language
      in filter (\<lambda>repo. strings_ToLower (Language repo) = targetLang) repos)"

definition excludeKeywords :: "string list" where
  "excludeKeywords = [''docs'', ''documentation'', ''website'', ''blog'', ''awesome-'']"

definition excludeLanguages :: "string list" where
  "excludeLanguages = [''html'', ''css'']"

text \<open>
  The two inner loops of \<open>selectDevRepositories\<close> start from the flag \<open>isDevRepo\<close> and
  clear it at the first keyword, and then at the first language, that matches; a
  \<open>break\<close> leaves the loop there.
\<close>

fun keywordLoop :: "bool \<Rightarrow> string \<Rightarrow> string \<Rightarrow> string list \<Rightarrow> bool" where
  "keywordLoop isDevRepo lowerName lowerDesc [] = isDevRepo"
| "keywordLoop isDevRepo lowerName lowerDesc (keyword # keywords) =
     (if strings_Contains lowerName keyword \<or> strings_Contains lowerDesc keyword then False
      else keywordLoop isDevRepo lowerName lowerDesc keywords)"

fun languageLoop :: "bool \<Rightarrow> string \<Rightarrow> string list \<Rightarrow> bool" where
  "languageLoop isDevRepo lowerLang [] = isDevRepo"
| "languageLoop isDevRepo lowerLang (excludeLang # langs) =
     (if lowerLang = excludeLang then False
      else languageLoop isDevRepo lowerLang langs)"

definition isDevRepo :: "Repository \<Rightarrow> bool" where
  "isDevRepo repo =
     (let lowerName = strings_ToLower (Name repo);
          lowerDesc = strings_ToLower (Description repo);
          lowerLang = strings_ToLower (Language repo)
      in languageLoop (keywordLoop True lowerName lowerDesc excludeKeywords)
           lowerLang excludeLanguages)"

fun devLoop :: "Repository list \<Rightarrow> Repository list \<Rightarrow> Repository list" where
  "devLoop devRepos [] = devRepos"
| "devLoop devRepos (repo # repos) =
     (if isDevRepo repo then devLoop (devRepos @ [repo]) repos
      else devLoop devRepos repos)"

definition selectDevRepositories :: "Repository list \<Rightarrow> Repository list" where
  "selectDevRepositories repos = devLoop [] repos"

subsection \<open>\<open>selectRepositories\<close>\<close>

text \<open>
  The search through \<open>selected\<close> for a repository of the same name, and the loop over
  the parsed indices that appends the repositories not yet selected. The guard
  \<open>idx >= 0 && idx < len(repos)\<close> of the source is kept, so \<open>repos[idx]\<close> is only read
  in range.
\<close>

fun alreadySelected :: "Repository list \<Rightarrow> string \<Rightarrow> bool" where
  "alreadySelected [] name = False"
| "alreadySelected (s # selected) name =
     (if Name s = name then True else alreadySelected selected name)"

fun addIndices :: "Repository list \<Rightarrow> Repository list \<Rightarrow> int list \<Rightarrow> Repository list" where
  "addIndices repos selected [] = selected"
| "addIndices repos selected (idx # indices) =
     (if idx \<ge> 0 \<and> idx < int (length repos) then
        (if alreadySelected selected (Name (repos ! nat idx))
         then addIndices repos selected indices
         else addIndices repos (selected @ [repos ! nat idx]) indices)
      else addIndices repos selected indices)"

text \<open>
  Standard input is the list of the lines still to be read, without their line ends.
  \<open>reader.ReadString\<close> drops its error, so at the end of the input the line read is
  empty and the loop ends as it does on an empty line. The nested call
  \<open>selectRepositories(langFiltered)\<close> opens a new reader on the same standard input
  and goes on with the lines that follow (the interactive use, where a read returns
  one line). What the function prints is not part of the model.

  \<open>selectLoop\<close> is the \<open>for\<close> loop with its variable \<open>selected\<close>;
  \<open>selectRepositories\<close> enters it with nothing selected.
\<close>

fun selectLoop :: "Repository list \<Rightarrow> Repository list \<Rightarrow> string list \<Rightarrow> Repository list" where
  "selectLoop repos selected [] = selected"
| "selectLoop repos selected (line # lines) =
     (let input = strings_TrimSpace line in
      if input = [] then selected
      else if input = ''all'' then repos
      else if input = ''dev'' then selectDevRepositories repos
      else
        (case tryLanguageFilter repos input of
           Some langFiltered \<Rightarrow> selectLoop langFiltered [] lines
         | None \<Rightarrow>
             selectLoop repos
               (addIndices repos selected (parseSelection input (int (length repos))))
               lines))"

definition selectRepositories :: "Repository list \<Rightarrow> string list \<Rightarrow> Repository list" where
  "selectRepositories repos lines = selectLoop repos [] lines"

subsection \<open>The outside world of the clone orchestrator\<close>

text \<open>
  \<open>HarvestRepository\<close> and the loop of \<open>runForklift\<close> act on the file system and the
  network through \<open>os.Stat\<close>, \<open>filepath.Join\<close> and the go-git library. Their behaviour
  is not fixed by this program, so it is a parameter: a record of functions over a
  state of the world \<open>'w\<close> of any type, with handles \<open>'r\<close> for a cloned repository,
  \<open>'t\<close> for its work tree and \<open>'s\<close> for a submodule. An error value is its text, which
  is all the code looks at (\<open>err.Error()\<close> and \<open>%v\<close>, \<open>%w\<close> in a format).

  \<^item> \<open>os_Stat w path\<close> holds when \<open>os.Stat(path)\<close> returns no error, which is how
    the code decides that the path exists;
  \<^item> \<open>git_PlainClone w path url\<close> is \<open>git.PlainClone(path, false, {URL: url})\<close>;
  \<^item> \<open>repo_Worktree\<close>, \<open>worktree_Submodules\<close>, \<open>submodule_Name\<close> (\<open>Config().Name\<close>) and
    \<open>submodule_Update\<close> are the calls of \<open>cultivateSubmodules\<close>.
\<close>

record ('w, 'r, 't, 's) collaborators =
  os_Stat :: "'w \<Rightarrow> string \<Rightarrow> bool"
  filepath_Join :: "string \<Rightarrow> string \<Rightarrow> string"
  git_PlainClone :: "'w \<Rightarrow> string \<Rightarrow> string \<Rightarrow> (string + 'r) \<times> 'w"
  repo_Worktree :: "'w \<Rightarrow> 'r \<Rightarrow> string + 't"
  worktree_Submodules :: "'w \<Rightarrow> 't \<Rightarrow> string + 's list"
  submodule_Name :: "'s \<Rightarrow> string"
  submodule_Update :: "'w \<Rightarrow> 's \<Rightarrow> string option \<times> 'w"

text \<open>
  What a run does is recorded in a trace: the calls of \<open>HarvestRepository\<close> (URL and
  path), the calls that reach the outside, and the lines printed about the outcome of
  an item.
\<close>

datatype report =
    FailedToHarvest string string
  | SshFailedTryingHttps string
  | HttpsAlsoFailed string string
  | HarvestedViaHttps string
  | Harvested string
  | SubmoduleWarning string

datatype event =
    HarvestCall string string
  | OsStat string
  | PlainClone string string
  | SubmoduleUpdate string
  | Printed report

record 'w state =
  world :: 'w
  trace :: "event list"

definition emit :: "event \<Rightarrow> 'w state \<Rightarrow> 'w state" where
  "emit e st = st\<lparr>trace := trace st @ [e]\<rparr>"

subsection \<open>Package \<open>harvester\<close>\<close>

fun updateLoop ::
  "('w, 'r, 't, 's) collaborators \<Rightarrow> 's list \<Rightarrow> 'w state \<Rightarrow> string option \<times> 'w state" where
  "updateLoop c [] st = (None, st)"
| "updateLoop c (submodule # submodules) st =
     (case submodule_Update c (world st) submodule of
        (Some err, w') \<Rightarrow>
          (Some (''failed to cultivate submodule '' @ submodule_Name c submodule @ '': '' @ err),
           emit (SubmoduleUpdate (submodule_Name c submodule)) (st\<lparr>world := w'\<rparr>))
      | (None, w') \<Rightarrow>
          updateLoop c submodules
            (emit (SubmoduleUpdate (submodule_Name c submodule)) (st\<lparr>world := w'\<rparr>)))"

definition cultivateSubmodules ::
  "('w, 'r, 't, 's) collaborators \<Rightarrow> 'r \<Rightarrow> string \<Rightarrow> 'w state \<Rightarrow> string option \<times> 'w state" where
  "cultivateSubmodules c repo repoPath st =
     (case repo_Worktree c (world st) repo of
        Inl err \<Rightarrow> (Some err, st)
      | Inr worktree \<Rightarrow>
          (case worktree_Submodules c (world st) worktree of
             Inl err \<Rightarrow> (Some err, st)
           | Inr submodules \<Rightarrow>
               if length submodules = 0 then (None, st)
               else updateLoop c submodules st))"

text \<open>
  \<open>HarvestRepository\<close>: the field \<open>recursive\<close> of the receiver is the second argument.
  The result is the error returned (\<open>None\<close> for \<open>nil\<close>) and the state afterwards.
\<close>

definition HarvestRepository ::
  "('w, 'r, 't, 's) collaborators \<Rightarrow> bool \<Rightarrow> string \<Rightarrow> string \<Rightarrow> 'w state
     \<Rightarrow> string option \<times> 'w state" where
  "HarvestRepository c recursive url path st0 =
     (let st = emit (OsStat path) (emit (HarvestCall url path) st0) in
      if os_Stat c (world st) path then
        (Some (''directory '' @ path @ '' already exists''), st)
      else
        (case git_PlainClone c (world st) path url of
           (Inl err, w') \<Rightarrow>
             (Some (''failed to harvest: '' @ err),
              emit (PlainClone path url) (st\<lparr>world := w'\<rparr>))
         | (Inr repo, w') \<Rightarrow>
             (let st1 = emit (PlainClone path url) (st\<lparr>world := w'\<rparr>) in
              if recursive then
                (case cultivateSubmodules c repo path st1 of
                   (Some err, st2) \<Rightarrow> (None, emit (Printed (SubmoduleWarning err)) st2)
                 | (None, st2) \<Rightarrow> (None, st2))
              else (None, st1))))"

subsection \<open>The clone loop of \<open>runForklift\<close>\<close>



text \<open>The calls of \<open>HarvestRepository\<close> in a trace, in order, as pairs of URL and path.\<close>

fun harvestCalls :: "event list \<Rightarrow> (string \<times> string) list" where
  "harvestCalls [] = []"
| "harvestCalls (HarvestCall url path # es) = (url, path) # harvestCalls es"
| "harvestCalls (e # es) = harvestCalls es"

text \<open>The clone attempts (\<open>git.PlainClone\<close>) in a trace, as pairs of path and URL.\<close>

fun cloneAttempts :: "event list \<Rightarrow> (string \<times> string) list" where
  "cloneAttempts [] = []"
| "cloneAttempts (PlainClone path url # es) = (path, url) # cloneAttempts es"
| "cloneAttempts (e # es) = cloneAttempts es"

text \<open>
  The reports on the outcome of the first attempt of an item, in order: the name in
  each line \<open>Successfully harvested\<close> or \<open>FAILED to harvest\<close>.
\<close>

fun itemOutcomes :: "event list \<Rightarrow> string list" where
  "itemOutcomes [] = []"
| "itemOutcomes (Printed (Harvested name) # es) = name # itemOutcomes es"
| "itemOutcomes (Printed (FailedToHarvest name err) # es) = name # itemOutcomes es"
| "itemOutcomes (e # es) = itemOutcomes es"

subsection \<open>The specification's side\<close>

text \<open>
  The exclusion rule of the development heuristic in the words of the specification:
  a candidate is excluded when its name or its description contains, whatever the
  case of the letters, one of the five keywords, or when its language is, whatever
  the case, \<open>html\<close> or \<open>css\<close>. \<^const>\<open>sublist\<close> is the library's notion of a block of
  adjacent elements.
\<close>

definition mentionsExcludedKeyword :: "string \<Rightarrow> bool" where
  "mentionsExcludedKeyword text \<longleftrightarrow>
     sublist ''docs'' (strings_ToLower text) \<or>
     sublist ''documentation'' (strings_ToLower text) \<or>
     sublist ''website'' (strings_ToLower text) \<or>
     sublist ''blog'' (strings_ToLower text) \<or>
     sublist ''awesome-'' (strings_ToLower text)"

definition excludedFromDev :: "Repository \<Rightarrow> bool" where
  "excludedFromDev repo \<longleftrightarrow>
     mentionsExcludedKeyword (Name repo) \<or> mentionsExcludedKeyword (Description repo) \<or>
     strings_ToLower (Language repo) = ''html'' \<or> strings_ToLower (Language repo) = ''css''"

text \<open>A repository whose language equals the input, whatever the case of the letters.\<close>

definition sameLanguage :: "string \<Rightarrow> Repository \<Rightarrow> bool" where
  "sameLanguage input repo \<longleftrightarrow> strings_ToLower (Language repo) = strings_ToLower input"

text \<open>
  The inputs that get as far as the language filter: the loop has left before on the
  empty input, on \<open>all\<close> and on \<open>dev\<close>.
\<close>

definition reachesFilter :: "string \<Rightarrow> bool" where
  "reachesFilter input \<longleftrightarrow> input \<noteq> [] \<and> input \<noteq> ''all'' \<and> input \<noteq> ''dev''"

text \<open>
  The values that the variable \<open>selected\<close> of one run of the loop over the collection
  \<open>repos\<close> can hold: it starts empty, and a round that reaches the numeric branch
  replaces it by the result of adding the parsed indices.
\<close>

inductive_set loopStates :: "Repository list \<Rightarrow> Repository list set"
  for repos :: "Repository list" where
  initial: "[] \<in> loopStates repos"
| round: "selected \<in> loopStates repos \<Longrightarrow>
     addIndices repos selected (parseSelection input (int (length repos))) \<in> loopStates repos"

subsection \<open>Sample data\<close>

definition repoA :: Repository where
  "repoA = \<lparr>Name = ''A'', Description = ''a command-line tool'',
     CloneURL = ''https://github.com/owner/A.git'', SSHURL = ''git@github.com:owner/A.git'',
     Language = ''Go'', Stars = 1200, Size = 340\<rparr>"

definition repoB :: Repository where
  "repoB = \<lparr>Name = ''B'', Description = '''',
     CloneURL = ''https://github.com/owner/B.git'', SSHURL = ''git@github.com:owner/B.git'',
     Language = ''HTML'', Stars = 0, Size = 12\<rparr>"

definition repoC :: Repository where
  "repoC = \<lparr>Name = ''C'', Description = ''parser library'',
     CloneURL = ''https://github.com/owner/C.git'', SSHURL = ''git@github.com:owner/C.git'',
     Language = ''Go'', Stars = 7, Size = 88\<rparr>"

definition repoD :: Repository where
  "repoD = \<lparr>Name = ''D'', Description = ''notebooks'',
     CloneURL = ''https://github.com/owner/D.git'', SSHURL = ''git@github.com:owner/D.git'',
     Language = ''Python'', Stars = 2, Size = 51\<rparr>"

definition repoE :: Repository where
  "repoE = \<lparr>Name = ''E'', Description = ''scratch'',
     CloneURL = ''https://github.com/owner/E.git'', SSHURL = ''git@github.com:owner/E.git'',
     Language = ''Rust'', Stars = 0, Size = 3\<rparr>"

text \<open>A repository whose language field is a numeral.\<close>

definition repoF :: Repository where
  "repoF = \<lparr>Name = ''F'', Description = ''experiments'',
     CloneURL = ''https://github.com/owner/F.git'', SSHURL = ''git@github.com:owner/F.git'',
     Language = ''5'', Stars = 0, Size = 3\<rparr>"

definition fiveRepos :: "Repository list" where
  "fiveRepos = [repoA, repoB, repoC, repoD, repoE]"

definition numeralRepos :: "Repository list" where
  "numeralRepos = [repoA, repoB, repoC, repoD, repoF]"

text \<open>
  A sample outside world. Its state is the list of the paths that exist. A clone over
  SSH fails in the handshake; a clone over HTTPS creates the path, except for
  repository \<open>B\<close>, which the server does not find. Every cloned repository has one
  submodule, whose update fails.
\<close>

definition sampleWorld :: "(string list, nat, nat, string) collaborators" where
  "sampleWorld =
     \<lparr>os_Stat = (\<lambda>w path. path \<in> set w),
      filepath_Join = (\<lambda>dir name. dir @ ''/'' @ name),
      git_PlainClone = (\<lambda>w path url.
         if prefix ''git@'' url then (Inl ''ssh: handshake failed'', w)
         else if url = ''https://github.com/owner/B.git'' then (Inl ''repository not found'', w)
         else (Inr 0, path # w)),
      repo_Worktree = (\<lambda>w repo. Inr 0),
      worktree_Submodules = (\<lambda>w worktree. Inr [''vendor/lib'']),
      submodule_Name = (\<lambda>submodule. submodule),
      submodule_Update = (\<lambda>w submodule. (Some ''authentication required'', w))\<rparr>"

definition emptyState :: "string list state" where
  "emptyState = \<lparr>world = [], trace = []\<rparr>"

section \<open>Properties of the selection engine\<close>

subsection \<open>The library functions\<close>

lemma strings_Contains_sublist: "strings_Contains s substr \<longleftrightarrow> sublist substr s"
  by (induction s) (auto simp: sublist_Cons_right)

lemmas string_eval = strings_ToLower_def toLowerByte_def strings_TrimSpace_def isSpace_def

lemmas parse_eval = parseSelection_def parsePart_def strings_TrimSpace_def isSpace_def
  strconv_Atoi_def parseUnsigned_def digitVal_def upto_rec_numeral

subsection \<open>Every parsed index is within the collection\<close>

lemma parsePart_range: "i \<in> set (parsePart part maxLen) \<Longrightarrow> 0 \<le> i \<and> i < maxLen"
  by (auto simp: parsePart_def Let_def split: if_splits list.splits option.splits)

lemma parseParts_range:
  "i \<in> set (parseParts indices parts maxLen) \<Longrightarrow>
   i \<in> set indices \<or> (0 \<le> i \<and> i < maxLen)"
proof (induction parts arbitrary: indices)
  case Nil
  then show ?case by simp
next
  case (Cons part parts)
  from Cons.IH [of "indices @ parsePart part maxLen"] Cons.prems
  have "i \<in> set (indices @ parsePart part maxLen) \<or> (0 \<le> i \<and> i < maxLen)"
    by simp
  with parsePart_range [of i part maxLen] show ?case by auto
qed

lemma parseSelection_range:
  "i \<in> set (parseSelection input maxLen) \<Longrightarrow> 0 \<le> i \<and> i < maxLen"
  using parseParts_range [of i "[]"] by (simp add: parseSelection_def)

subsection \<open>The development heuristic\<close>

lemma keywordLoop_eq:
  "keywordLoop b n d ks \<longleftrightarrow>
     b \<and> \<not> list_ex (\<lambda>k. strings_Contains n k \<or> strings_Contains d k) ks"
  by (induction ks) auto

lemma languageLoop_eq: "languageLoop b l ls \<longleftrightarrow> b \<and> l \<notin> set ls"
  by (induction ls) auto

lemma devLoop_eq: "devLoop devRepos repos = devRepos @ filter isDevRepo repos"
  by (induction repos arbitrary: devRepos) auto

lemma isDevRepo_eq: "isDevRepo repo \<longleftrightarrow> \<not> excludedFromDev repo"
  unfolding isDevRepo_def excludedFromDev_def mentionsExcludedKeyword_def Let_def
    keywordLoop_eq languageLoop_eq excludeKeywords_def excludeLanguages_def
    strings_Contains_sublist
  by auto

lemma selectDevRepositories_eq:
  "selectDevRepositories repos = filter (\<lambda>repo. \<not> excludedFromDev repo) repos"
proof -
  have "isDevRepo = (\<lambda>repo. \<not> excludedFromDev repo)"
    by (rule ext) (rule isDevRepo_eq)
  then show ?thesis
    by (simp add: selectDevRepositories_def devLoop_eq)
qed

lemma selectDevRepositories_set: "set (selectDevRepositories repos) \<subseteq> set repos"
  by (simp add: selectDevRepositories_def devLoop_eq)

subsection \<open>The language filter\<close>

lemma sameLanguage_fun:
  "(\<lambda>repo. strings_ToLower (Language repo) = strings_ToLower input) = sameLanguage input"
  by (rule ext) (simp add: sameLanguage_def)

lemma tryLanguageFilter_Some:
  assumes "list_ex (sameLanguage input) repos"
  shows "tryLanguageFilter repos input = Some (filter (sameLanguage input) repos)"
proof -
  from assms have "filter (sameLanguage input) repos \<noteq> []"
    by (simp add: list_ex_iff filter_empty_conv)
  then show ?thesis
    by (simp add: tryLanguageFilter_def Let_def sameLanguage_fun)
qed

lemma tryLanguageFilter_None:
  assumes "\<not> list_ex (sameLanguage input) repos"
  shows "tryLanguageFilter repos input = None"
proof -
  from assms have "filter (sameLanguage input) repos = []"
    by (simp add: list_ex_iff filter_empty_conv)
  then show ?thesis
    by (simp add: tryLanguageFilter_def Let_def sameLanguage_fun)
qed

lemma tryLanguageFilter_set:
  "tryLanguageFilter repos input = Some langFiltered \<Longrightarrow> set langFiltered \<subseteq> set repos"
  by (auto simp: tryLanguageFilter_def Let_def split: if_splits)

subsection \<open>One round of the loop\<close>

lemma selectLoop_empty:
  "strings_TrimSpace line = [] \<Longrightarrow> selectLoop repos selected (line # lines) = selected"
  by simp

lemma selectLoop_end: "selectLoop repos selected [[]] = selected"
  by (simp add: strings_TrimSpace_def)

lemma selectLoop_all:
  "strings_TrimSpace line = ''all'' \<Longrightarrow> selectLoop repos selected (line # lines) = repos"
  by simp

lemma selectLoop_dev:
  "strings_TrimSpace line = ''dev'' \<Longrightarrow>
   selectLoop repos selected (line # lines) = selectDevRepositories repos"
  by simp

lemma selectLoop_filter:
  assumes "reachesFilter (strings_TrimSpace line)"
    and "tryLanguageFilter repos (strings_TrimSpace line) = Some langFiltered"
  shows "selectLoop repos selected (line # lines) = selectRepositories langFiltered lines"
  using assms by (simp add: reachesFilter_def selectRepositories_def Let_def)

lemma selectLoop_numeric:
  assumes "reachesFilter (strings_TrimSpace line)"
    and "tryLanguageFilter repos (strings_TrimSpace line) = None"
  shows "selectLoop repos selected (line # lines) =
         selectLoop repos
           (addIndices repos selected
              (parseSelection (strings_TrimSpace line) (int (length repos)))) lines"
  using assms by (simp add: reachesFilter_def Let_def)

text \<open>From here on a round of the loop is unfolded by the five lemmas above only.\<close>

declare selectLoop.simps(2) [simp del]

lemma selectRepositories_numeric_line:
  assumes "strings_TrimSpace line = input" and "reachesFilter input"
    and "\<not> list_ex (sameLanguage input) repos"
  shows "selectRepositories repos [line, []] =
         addIndices repos [] (parseSelection input (int (length repos)))"
proof -
  have "tryLanguageFilter repos (strings_TrimSpace line) = None"
    using assms(1,3) by (simp add: tryLanguageFilter_None)
  moreover have "reachesFilter (strings_TrimSpace line)"
    using assms(1,2) by simp
  ultimately have "selectLoop repos [] (line # [[]]) =
     selectLoop repos
       (addIndices repos [] (parseSelection (strings_TrimSpace line) (int (length repos))))
       [[]]"
    by (intro selectLoop_numeric)
  then show ?thesis
    unfolding selectRepositories_def selectLoop_end assms(1) .
qed

subsection \<open>Adding the parsed indices\<close>

lemma alreadySelected_iff: "alreadySelected selected name \<longleftrightarrow> name \<in> Name ` set selected"
  by (induction selected) auto

lemma addIndices_distinct:
  "distinct (map Name selected) \<Longrightarrow> distinct (map Name (addIndices repos selected indices))"
  by (induction indices arbitrary: selected) (auto simp: alreadySelected_iff)

lemma addIndices_prefix: "prefix selected (addIndices repos selected indices)"
proof (induction indices arbitrary: selected)
  case Nil
  show ?case by simp
next
  case (Cons idx indices)
  have "prefix (selected @ [repos ! nat idx])
          (addIndices repos (selected @ [repos ! nat idx]) indices)"
    by (rule Cons.IH)
  then have "prefix selected (addIndices repos (selected @ [repos ! nat idx]) indices)"
    by (rule append_prefixD)
  with Cons.IH [of selected] show ?case by simp
qed

lemma addIndices_noop:
  "(\<forall>idx \<in> set indices. 0 \<le> idx \<and> idx < int (length repos) \<longrightarrow>
      Name (repos ! nat idx) \<in> Name ` set selected) \<Longrightarrow>
   addIndices repos selected indices = selected"
  by (induction indices arbitrary: selected) (auto simp: alreadySelected_iff)

lemma addIndices_set: "set (addIndices repos selected indices) \<subseteq> set selected \<union> set repos"
proof (induction indices arbitrary: selected)
  case Nil
  show ?case by simp
next
  case (Cons idx indices)
  show ?case
  proof (cases "idx \<ge> 0 \<and> idx < int (length repos)")
    case True
    then have "nat idx < length repos" by linarith
    then have "repos ! nat idx \<in> set repos" by (rule nth_mem)
    with Cons.IH [of selected] Cons.IH [of "selected @ [repos ! nat idx]"] True
    show ?thesis by auto
  next
    case False
    with Cons.IH [of selected] show ?thesis by auto
  qed
qed

lemma loopStates_distinct: "selected \<in> loopStates repos \<Longrightarrow> distinct (map Name selected)"
  by (induction rule: loopStates.induct) (simp_all add: addIndices_distinct)

subsection \<open>What the loop can return\<close>

lemma selectLoop_set: "set (selectLoop repos selected lines) \<subseteq> set selected \<union> set repos"
proof (induction repos selected lines rule: selectLoop.induct)
  case (1 repos selected)
  show ?case by simp
next
  case (2 repos selected line lines)
  let ?input = "strings_TrimSpace line"
  show ?case
  proof (cases "reachesFilter ?input")
    case False
    then consider "?input = []" | "?input = ''all''" | "?input = ''dev''"
      by (auto simp: reachesFilter_def)
    then show ?thesis
    proof cases
      case 1
      then show ?thesis by (simp add: selectLoop_empty)
    next
      case 2
      then show ?thesis by (simp add: selectLoop_all)
    next
      case 3
      then show ?thesis
        using selectDevRepositories_set [of repos] by (auto simp: selectLoop_dev)
    qed
  next
    case True
    then have r: "?input \<noteq> []" "?input \<noteq> ''all''" "?input \<noteq> ''dev''"
      by (simp_all add: reachesFilter_def)
    show ?thesis
    proof (cases "tryLanguageFilter repos ?input")
      case None
      have "set (selectLoop repos (addIndices repos selected
               (parseSelection ?input (int (length repos)))) lines)
            \<subseteq> set (addIndices repos selected (parseSelection ?input (int (length repos))))
                \<union> set repos"
        using "2.IH"(1) [OF refl r None] .
      moreover have "set (addIndices repos selected (parseSelection ?input (int (length repos))))
            \<subseteq> set selected \<union> set repos"
        by (rule addIndices_set)
      ultimately show ?thesis
        unfolding selectLoop_numeric [OF True None] by blast
    next
      case (Some langFiltered)
      have "set (selectLoop langFiltered [] lines) \<subseteq> set [] \<union> set langFiltered"
        using "2.IH"(2) [OF refl r Some] .
      with tryLanguageFilter_set [OF Some] selectLoop_filter [OF True Some]
      show ?thesis by (auto simp: selectRepositories_def)
    qed
  qed
qed

lemma selectRepositories_set: "set (selectRepositories repos lines) \<subseteq> set repos"
  using selectLoop_set [of repos "[]" lines] by (simp add: selectRepositories_def)

text \<open>
  What the loop returns is a value of its variable \<open>selected\<close>, or the result of \<open>all\<close>
  or of \<open>dev\<close>, for the collection or for one that language filters have narrowed it to.
\<close>

lemma selectLoop_result:
  "selected \<in> loopStates repos \<Longrightarrow>
   \<exists>repos' selected'. set repos' \<subseteq> set repos \<and> selected' \<in> loopStates repos' \<and>
     (selectLoop repos selected lines = selected' \<or>
      selectLoop repos selected lines = repos' \<or>
      selectLoop repos selected lines = selectDevRepositories repos')"
proof (induction repos selected lines rule: selectLoop.induct)
  case (1 repos selected)
  then show ?case by (intro exI [of _ repos] exI [of _ selected]) simp
next
  case (2 repos selected line lines)
  let ?input = "strings_TrimSpace line"
  show ?case
  proof (cases "reachesFilter ?input")
    case False
    then consider "?input = []" | "?input = ''all''" | "?input = ''dev''"
      by (auto simp: reachesFilter_def)
    then show ?thesis
    proof cases
      case 1
      with "2.prems" show ?thesis
        by (intro exI [of _ repos] exI [of _ selected]) (simp add: selectLoop_empty)
    next
      case 2
      with "2.prems" show ?thesis
        by (intro exI [of _ repos] exI [of _ selected]) (simp add: selectLoop_all)
    next
      case 3
      with "2.prems" show ?thesis
        by (intro exI [of _ repos] exI [of _ selected]) (simp add: selectLoop_dev)
    qed
  next
    case True
    then have r: "?input \<noteq> []" "?input \<noteq> ''all''" "?input \<noteq> ''dev''"
      by (simp_all add: reachesFilter_def)
    show ?thesis
    proof (cases "tryLanguageFilter repos ?input")
      case None
      have "addIndices repos selected (parseSelection ?input (int (length repos)))
          \<in> loopStates repos"
        using "2.prems" by (rule loopStates.round)
      from "2.IH"(1) [OF refl r None this] show ?thesis
        unfolding selectLoop_numeric [OF True None] .
    next
      case (Some langFiltered)
      have "[] \<in> loopStates langFiltered"
        by (rule loopStates.initial)
      from "2.IH"(2) [OF refl r Some this] obtain repos' selected' where
        "set repos' \<subseteq> set langFiltered" "selected' \<in> loopStates repos'"
        "selectLoop langFiltered [] lines = selected' \<or>
         selectLoop langFiltered [] lines = repos' \<or>
         selectLoop langFiltered [] lines = selectDevRepositories repos'"
        by blast
      with tryLanguageFilter_set [OF Some] show ?thesis
        unfolding selectLoop_filter [OF True Some] selectRepositories_def
        by (intro exI [of _ repos'] exI [of _ selected']) auto
    qed
  qed
qed

subsection \<open>Numeric selection\<close>

lemma parse_2_4: "parseSelection ''2,4'' 5 = [1, 3]"
  by (simp add: parse_eval)

lemma parse_2to4: "parseSelection ''2-4'' 5 = [1, 2, 3]"
  by (simp add: parse_eval)

lemma parse_0_6: "parseSelection ''0,6'' 5 = []"
  by (simp add: parse_eval)

lemma parse_2_2: "parseSelection ''2,2'' 5 = [1, 1]"
  by (simp add: parse_eval)

text \<open>
  Claim C1. On a collection of five repositories with pairwise different names, none
  of which has one of the four inputs as its language: \<open>parseSelection\<close> turns \<open>2,4\<close>
  into the indices 1 and 3 (0-based), \<open>2-4\<close> into 1, 2, 3, \<open>0,6\<close> into nothing (both
  tokens are out of range and are skipped without an error) and \<open>2,2\<close> into 1 twice;
  the selection engine, given the input and then the empty line, returns the
  repositories at the positions 2 and 4, at the positions 2, 3 and 4, none, and the
  repository at position 2 once.
\<close>

theorem numeric_selection_examples:
  assumes len: "length repos = 5"
    and names: "distinct (map Name repos)"
    and nolang: "\<not> list_ex (\<lambda>repo. strings_ToLower (Language repo) \<in>
                    set [''2,4'', ''2-4'', ''0,6'', ''2,2'']) repos"
  shows "parseSelection ''2,4'' 5 = [1, 3] \<and>
         parseSelection ''2-4'' 5 = [1, 2, 3] \<and>
         parseSelection ''0,6'' 5 = [] \<and>
         parseSelection ''2,2'' 5 = [1, 1] \<and>
         selectRepositories repos [''2,4'', ''''] = [repos ! 1, repos ! 3] \<and>
         selectRepositories repos [''2-4'', ''''] = [repos ! 1, repos ! 2, repos ! 3] \<and>
         selectRepositories repos [''0,6'', ''''] = [] \<and>
         selectRepositories repos [''2,2'', ''''] = [repos ! 1]"
proof -
  from len obtain r0 r1 r2 r3 r4 where repos: "repos = [r0, r1, r2, r3, r4]"
    by (auto simp: length_Suc_conv eval_nat_numeral)
  have low: "strings_ToLower ''2,4'' = ''2,4''" "strings_ToLower ''2-4'' = ''2-4''"
    "strings_ToLower ''0,6'' = ''0,6''" "strings_ToLower ''2,2'' = ''2,2''"
    by (simp_all add: string_eval)
  have no: "\<not> list_ex (sameLanguage ''2,4'') repos" "\<not> list_ex (sameLanguage ''2-4'') repos"
    "\<not> list_ex (sameLanguage ''0,6'') repos" "\<not> list_ex (sameLanguage ''2,2'') repos"
    using nolang by (auto simp: list_ex_iff sameLanguage_def low)
  have trim: "strings_TrimSpace ''2,4'' = ''2,4''" "strings_TrimSpace ''2-4'' = ''2-4''"
    "strings_TrimSpace ''0,6'' = ''0,6''" "strings_TrimSpace ''2,2'' = ''2,2''"
    by (simp_all add: string_eval)
  have s1: "selectRepositories repos [''2,4'', ''''] = [repos ! 1, repos ! 3]"
    using names
    by (simp add: selectRepositories_numeric_line [OF trim(1) _ no(1)] reachesFilter_def
        len parse_2_4) (simp add: repos)
  have s2: "selectRepositories repos [''2-4'', ''''] = [repos ! 1, repos ! 2, repos ! 3]"
    using names
    by (simp add: selectRepositories_numeric_line [OF trim(2) _ no(2)] reachesFilter_def
        len parse_2to4) (simp add: repos)
  have s3: "selectRepositories repos [''0,6'', ''''] = []"
    by (simp add: selectRepositories_numeric_line [OF trim(3) _ no(3)] reachesFilter_def
        len parse_0_6)
  have s4: "selectRepositories repos [''2,2'', ''''] = [repos ! 1]"
    by (simp add: selectRepositories_numeric_line [OF trim(4) _ no(4)] reachesFilter_def
        len parse_2_2)
  from parse_2_4 parse_2to4 parse_0_6 parse_2_2 s1 s2 s3 s4 show ?thesis by blast
qed

lemmas sample_repos = fiveRepos_def repoA_def repoB_def repoC_def repoD_def repoE_def repoF_def

theorem numeric_selection_examples_witness:
  "length fiveRepos = 5 \<and> distinct (map Name fiveRepos) \<and>
   selectRepositories fiveRepos [''2,4'', ''''] = [repoB, repoD] \<and>
   selectRepositories fiveRepos [''2-4'', ''''] = [repoB, repoC, repoD] \<and>
   selectRepositories fiveRepos [''0,6'', ''''] = [] \<and>
   selectRepositories fiveRepos [''2,2'', ''''] = [repoB]"
proof -
  have len: "length fiveRepos = 5"
    by (simp add: fiveRepos_def)
  have names: "distinct (map Name fiveRepos)"
    by (simp add: sample_repos)
  have nolang: "\<not> list_ex (\<lambda>repo. strings_ToLower (Language repo) \<in>
                    set [''2,4'', ''2-4'', ''0,6'', ''2,2'']) fiveRepos"
    by (simp add: sample_repos string_eval)
  have nth: "fiveRepos ! Suc 0 = repoB" "fiveRepos ! 2 = repoC" "fiveRepos ! 3 = repoD"
    by (simp_all add: fiveRepos_def)
  from numeric_selection_examples [OF len names nolang] len names
  show ?thesis by (simp add: nth)
qed

subsection \<open>The development heuristic and the specification\<close>


subsection \<open>The language filter in the loop\<close>

text \<open>
  Claim C3, as stated: an input that equals the language of at least one candidate
  makes the engine restart on a narrowed collection that is a strict subset of the
  collection. It fails where every candidate has the language asked for: on the
  collection of \<open>A\<close> and \<open>C\<close>, both in Go, the input \<open>go\<close> matches and the narrowed
  collection is the whole collection again.
\<close>

theorem language_filter_strict_subset_counterexample:
  "list_ex (sameLanguage ''go'') [repoA, repoC] \<and>
   tryLanguageFilter [repoA, repoC] ''go'' = Some [repoA, repoC] \<and>
   \<not> set [repoA, repoC] \<subset> set [repoA, repoC]"
  by (simp add: tryLanguageFilter_def sameLanguage_def sample_repos string_eval)

text \<open>
  Claim C3, amended. For every input line that, trimmed, is not empty, not \<open>all\<close> and
  not \<open>dev\<close>, and equals the language of at least one candidate without regard to
  case: \<open>tryLanguageFilter\<close> returns the candidates of that language, the engine
  restarts on them with the lines that follow, and this narrowed collection is not
  empty, is a subsequence of the collection (so a subset, in the order of the
  collection), holds only repositories of that language, and is the whole collection
  exactly when every candidate has that language.
\<close>

theorem language_filter_narrows:
  assumes "reachesFilter (strings_TrimSpace line)"
    and "list_ex (sameLanguage (strings_TrimSpace line)) repos"
    and "narrowed = filter (sameLanguage (strings_TrimSpace line)) repos"
  shows "tryLanguageFilter repos (strings_TrimSpace line) = Some narrowed \<and>
         selectRepositories repos (line # lines) = selectRepositories narrowed lines \<and>
         narrowed \<noteq> [] \<and> subseq narrowed repos \<and> set narrowed \<subseteq> set repos \<and>
         list_all (sameLanguage (strings_TrimSpace line)) narrowed \<and>
         (narrowed = repos \<longleftrightarrow> list_all (sameLanguage (strings_TrimSpace line)) repos)"
proof -
  have f: "tryLanguageFilter repos (strings_TrimSpace line) = Some narrowed"
    using assms(2,3) by (simp add: tryLanguageFilter_Some)
  have "selectRepositories repos (line # lines) = selectRepositories narrowed lines"
    unfolding selectRepositories_def [of repos] using assms(1) f by (rule selectLoop_filter)
  moreover have "narrowed \<noteq> []"
    using assms(2,3) by (simp add: list_ex_iff filter_empty_conv)
  moreover have "subseq narrowed repos"
    using assms(3) by simp
  moreover have "set narrowed \<subseteq> set repos"
    using assms(3) by auto
  moreover have "list_all (sameLanguage (strings_TrimSpace line)) narrowed"
    using assms(3) by (simp add: list_all_iff)
  moreover have "narrowed = repos \<longleftrightarrow> list_all (sameLanguage (strings_TrimSpace line)) repos"
    using assms(3) by (simp add: list_all_iff filter_id_conv)
  ultimately show ?thesis using f by blast
qed

theorem language_filter_narrows_witness:
  "reachesFilter (strings_TrimSpace '' GO '') \<and>
   list_ex (sameLanguage (strings_TrimSpace '' GO '')) [repoA, repoB, repoC] \<and>
   tryLanguageFilter [repoA, repoB, repoC] (strings_TrimSpace '' GO '') = Some [repoA, repoC] \<and>
   selectRepositories [repoA, repoB, repoC] ['' GO '', ''all''] =
     selectRepositories [repoA, repoC] [''all''] \<and>
   [repoA, repoC] \<noteq> [repoA, repoB, repoC]"
proof -
  have trim: "strings_TrimSpace '' GO '' = ''GO''"
    by (simp add: string_eval)
  have r: "reachesFilter (strings_TrimSpace '' GO '')"
    by (simp add: trim reachesFilter_def)
  have e: "list_ex (sameLanguage (strings_TrimSpace '' GO '')) [repoA, repoB, repoC]"
    by (simp add: trim sameLanguage_def sample_repos string_eval)
  have n: "[repoA, repoC] = filter (sameLanguage (strings_TrimSpace '' GO '')) [repoA, repoB, repoC]"
    by (simp add: trim sameLanguage_def sample_repos string_eval)
  have d: "[repoA, repoC] \<noteq> [repoA, repoB, repoC]"
    by simp
  from language_filter_narrows [OF r e n, of "[''all'']"] r e d
  show ?thesis by simp
qed

text \<open>
  Claim C4. The language filter is tried before the numeric parsing. For an input
  line that, trimmed, is not empty, not \<open>all\<close> and not \<open>dev\<close>: when some candidate has
  the input as its language (without regard to case), the engine restarts on the
  candidates of that language; only when no candidate has, the input is parsed as
  index selection and the loop goes on with the indices added.
\<close>

theorem language_filter_before_numeric:
  assumes "reachesFilter (strings_TrimSpace line)"
  shows "(if list_ex (sameLanguage (strings_TrimSpace line)) repos
          then selectLoop repos selected (line # lines) =
               selectRepositories (filter (sameLanguage (strings_TrimSpace line)) repos) lines
          else selectLoop repos selected (line # lines) =
               selectLoop repos
                 (addIndices repos selected
                    (parseSelection (strings_TrimSpace line) (int (length repos)))) lines)"
proof (cases "list_ex (sameLanguage (strings_TrimSpace line)) repos")
  case True
  then have "tryLanguageFilter repos (strings_TrimSpace line) =
      Some (filter (sameLanguage (strings_TrimSpace line)) repos)"
    by (rule tryLanguageFilter_Some)
  with assms have "selectLoop repos selected (line # lines) =
      selectRepositories (filter (sameLanguage (strings_TrimSpace line)) repos) lines"
    by (rule selectLoop_filter)
  with True show ?thesis by simp
next
  case False
  then have "tryLanguageFilter repos (strings_TrimSpace line) = None"
    by (rule tryLanguageFilter_None)
  with assms have "selectLoop repos selected (line # lines) =
      selectLoop repos
        (addIndices repos selected
           (parseSelection (strings_TrimSpace line) (int (length repos)))) lines"
    by (rule selectLoop_numeric)
  with False show ?thesis by simp
qed

lemma parse_5: "parseSelection ''5'' 5 = [4]"
  by (simp add: parse_eval)

theorem language_filter_before_numeric_witness:
  "reachesFilter (strings_TrimSpace ''5'') \<and>
   \<not> list_ex (sameLanguage (strings_TrimSpace ''5'')) fiveRepos \<and>
   selectLoop fiveRepos [] [''5'', ''''] = [repoE] \<and>
   list_ex (sameLanguage (strings_TrimSpace ''5'')) numeralRepos \<and>
   selectLoop numeralRepos [] [''5'', ''''] = [] \<and>
   selectLoop numeralRepos [] [''5'', ''all''] = [repoF]"
proof -
  have trim: "strings_TrimSpace ''5'' = ''5''" "strings_TrimSpace ''all'' = ''all''"
    by (simp_all add: string_eval)
  have r: "reachesFilter (strings_TrimSpace ''5'')"
    by (simp add: trim reachesFilter_def)
  have no: "\<not> list_ex (sameLanguage (strings_TrimSpace ''5'')) fiveRepos"
    by (simp add: trim sameLanguage_def sample_repos string_eval)
  have yes: "list_ex (sameLanguage (strings_TrimSpace ''5'')) numeralRepos"
    by (simp add: trim sameLanguage_def numeralRepos_def sample_repos string_eval)
  have narrowed: "filter (sameLanguage (strings_TrimSpace ''5'')) numeralRepos = [repoF]"
    by (simp add: trim sameLanguage_def numeralRepos_def sample_repos string_eval)
  have len: "int (length fiveRepos) = 5"
    by (simp add: fiveRepos_def)
  have added: "fiveRepos ! 4 = repoE"
    by (simp add: fiveRepos_def)
  have a: "selectLoop fiveRepos [] [''5'', ''''] = [repoE]"
    using language_filter_before_numeric [OF r, of fiveRepos "[]" "['''']"] no
    by (simp add: trim(1) len parse_5 added selectLoop_end)
  have b: "selectLoop numeralRepos [] [''5'', ''''] = []"
    using language_filter_before_numeric [OF r, of numeralRepos "[]" "['''']"] yes
    by (simp add: narrowed selectRepositories_def selectLoop_end)
  have c: "selectLoop numeralRepos [] [''5'', ''all''] = [repoF]"
    using language_filter_before_numeric [OF r, of numeralRepos "[]" "[''all'']"] yes
    by (simp add: narrowed selectRepositories_def selectLoop_all [OF trim(2)])
  from r no yes a b c show ?thesis by blast
qed

text \<open>
  Claim C10. A language-filter line discards what the loop has selected so far: the
  engine returns the result of the restarted selection on the narrowed collection,
  which is the same whatever had been selected before and holds only repositories of
  the narrowed collection.
\<close>

theorem language_filter_discards_selection:
  assumes "reachesFilter (strings_TrimSpace line)"
    and "tryLanguageFilter repos (strings_TrimSpace line) = Some langFiltered"
  shows "selectLoop repos selected (line # lines) = selectRepositories langFiltered lines \<and>
         selectLoop repos selected (line # lines) = selectLoop repos [] (line # lines) \<and>
         set (selectLoop repos selected (line # lines)) \<subseteq> set langFiltered"
proof -
  have a: "selectLoop repos sel (line # lines) = selectRepositories langFiltered lines" for sel
    using assms by (rule selectLoop_filter)
  have "set (selectRepositories langFiltered lines) \<subseteq> set langFiltered"
    by (rule selectRepositories_set)
  then show ?thesis
    by (simp add: a)
qed

theorem language_filter_discards_selection_witness:
  "reachesFilter (strings_TrimSpace ''go'') \<and>
   tryLanguageFilter [repoA, repoB, repoC] (strings_TrimSpace ''go'') = Some [repoA, repoC] \<and>
   selectRepositories [repoA, repoB, repoC] [''2'', ''''] = [repoB] \<and>
   selectRepositories [repoA, repoB, repoC] [''2'', ''go'', ''''] = [] \<and>
   selectRepositories [repoA, repoB, repoC] [''2'', ''go'', ''1'', ''''] = [repoA]"
proof -
  have trim: "strings_TrimSpace ''go'' = ''go''" "strings_TrimSpace ''2'' = ''2''"
    "strings_TrimSpace ''1'' = ''1''"
    by (simp_all add: string_eval)
  have r: "reachesFilter (strings_TrimSpace ''go'')" "reachesFilter ''2''" "reachesFilter ''1''"
    by (simp_all add: trim reachesFilter_def)
  have f: "tryLanguageFilter [repoA, repoB, repoC] (strings_TrimSpace ''go'') = Some [repoA, repoC]"
    by (simp add: trim tryLanguageFilter_def sample_repos string_eval)
  have no2: "\<not> list_ex (sameLanguage ''2'') [repoA, repoB, repoC]"
    by (simp add: sameLanguage_def sample_repos string_eval)
  have no1: "\<not> list_ex (sameLanguage ''1'') [repoA, repoC]"
    by (simp add: sameLanguage_def sample_repos string_eval)
  have p2: "parseSelection ''2'' 3 = [1]" and p1: "parseSelection ''1'' 2 = [0]"
    by (simp_all add: parse_eval)
  have two: "selectLoop [repoA, repoB, repoC] [] (''2'' # lines) =
      selectLoop [repoA, repoB, repoC] [repoB] lines" for lines
  proof -
    have "tryLanguageFilter [repoA, repoB, repoC] (strings_TrimSpace ''2'') = None"
      using no2 by (simp add: trim tryLanguageFilter_None)
    with r(2) show ?thesis
      by (simp add: selectLoop_numeric trim p2)
  qed
  have one: "selectRepositories [repoA, repoC] [''1'', ''''] = [repoA]"
    using selectRepositories_numeric_line [OF trim(3) r(3) no1] by (simp add: p1)
  have a: "selectRepositories [repoA, repoB, repoC] [''2'', ''''] = [repoB]"
    by (simp add: selectRepositories_def two selectLoop_end)
  have b: "selectRepositories [repoA, repoB, repoC] [''2'', ''go'', ''''] = []"
    using language_filter_discards_selection [OF r(1) f, of "[repoB]" "['''']"]
    by (simp add: selectRepositories_def two selectLoop_end)
  have c: "selectRepositories [repoA, repoB, repoC] [''2'', ''go'', ''1'', ''''] = [repoA]"
    using language_filter_discards_selection [OF r(1) f, of "[repoB]" "[''1'', '''']"] one
    by (simp add: selectRepositories_def [of "[repoA, repoB, repoC]"] two)
  from r(1) f a b c show ?thesis by blast
qed

subsection \<open>The accumulated selection\<close>

text \<open>
  Claim C5. At every point of the loop the accumulated selection holds no two
  repositories of the same name, and a round only appends to it: the selection before
  the round is a prefix of the selection after it, the names stay pairwise different,
  and when every valid index submitted names a repository whose name is already
  selected, the round leaves the selection as it is.
\<close>

theorem selection_append_only_without_duplicates:
  assumes "selected \<in> loopStates repos"
  shows "distinct (map Name selected) \<and>
         prefix selected (addIndices repos selected indices) \<and>
         distinct (map Name (addIndices repos selected indices)) \<and>
         ((\<forall>idx \<in> set indices. 0 \<le> idx \<and> idx < int (length repos) \<longrightarrow>
              Name (repos ! nat idx) \<in> Name ` set selected) \<longrightarrow>
          addIndices repos selected indices = selected)"
proof -
  have d: "distinct (map Name selected)"
    using assms by (rule loopStates_distinct)
  then have "distinct (map Name (addIndices repos selected indices))"
    by (rule addIndices_distinct)
  with d addIndices_prefix [of selected repos indices] addIndices_noop [of indices repos selected]
  show ?thesis by blast
qed

theorem selection_append_only_without_duplicates_witness:
  "[repoB, repoD] \<in> loopStates fiveRepos \<and>
   distinct (map Name [repoB, repoD]) \<and>
   addIndices fiveRepos [repoB, repoD] (parseSelection ''2,4'' 5) = [repoB, repoD] \<and>
   addIndices fiveRepos [repoB, repoD] (parseSelection ''2-4'' 5) = [repoB, repoD, repoC] \<and>
   prefix [repoB, repoD] [repoB, repoD, repoC]"
proof -
  have nth: "fiveRepos ! Suc 0 = repoB" "fiveRepos ! 2 = repoC" "fiveRepos ! 3 = repoD"
    and len: "int (length fiveRepos) = 5"
    by (simp_all add: fiveRepos_def)
  have first: "addIndices fiveRepos [] (parseSelection ''2,4'' (int (length fiveRepos))) =
      [repoB, repoD]"
    by (simp add: len parse_2_4 nth sample_repos)
  have "addIndices fiveRepos [] (parseSelection ''2,4'' (int (length fiveRepos)))
      \<in> loopStates fiveRepos"
    by (intro loopStates.round loopStates.initial)
  then have mem: "[repoB, repoD] \<in> loopStates fiveRepos"
    by (simp only: first)
  have again: "\<forall>idx \<in> set (parseSelection ''2,4'' 5). 0 \<le> idx \<and> idx < int (length fiveRepos) \<longrightarrow>
      Name (fiveRepos ! nat idx) \<in> Name ` set [repoB, repoD]"
    by (simp add: parse_2_4 nth len)
  have more: "addIndices fiveRepos [repoB, repoD] (parseSelection ''2-4'' 5) =
      [repoB, repoD, repoC]"
    by (simp add: len parse_2to4 nth sample_repos)
  from selection_append_only_without_duplicates [OF mem, of "parseSelection ''2,4'' 5"]
    selection_append_only_without_duplicates [OF mem, of "parseSelection ''2-4'' 5"]
    again mem more
  show ?thesis by simp
qed

subsection \<open>The scenario of three repositories\<close>

text \<open>
  Claim C9, as stated: on the repositories \<open>A\<close> (Go), \<open>B\<close> (HTML) and \<open>C\<close> (Go) the
  selection input \<open>go\<close> returns \<open>A\<close> and \<open>C\<close>. The input \<open>go\<close> narrows the collection
  and restarts the selection with nothing selected; when the input ends there, or
  the empty line follows, the engine returns the empty selection.
\<close>

theorem scenario_go_counterexample:
  "selectRepositories [repoA, repoB, repoC] [''go''] = [] \<and>
   selectRepositories [repoA, repoB, repoC] [''go'', ''''] = [] \<and>
   [] \<noteq> [repoA, repoC]"
proof -
  have "strings_TrimSpace ''go'' = ''go''"
    by (simp add: string_eval)
  then have r: "reachesFilter (strings_TrimSpace ''go'')"
    and f: "tryLanguageFilter [repoA, repoB, repoC] (strings_TrimSpace ''go'') =
      Some [repoA, repoC]"
    by (simp_all add: reachesFilter_def tryLanguageFilter_def sample_repos string_eval)
  show ?thesis
    by (simp add: selectRepositories_def selectLoop_filter [OF r f] selectLoop_end)
qed

text \<open>
  Claim C9, amended. On three repositories named \<open>A\<close> (language Go), \<open>B\<close> (language HTML,
  empty description) and \<open>C\<close> (language Go), where the descriptions of \<open>A\<close> and \<open>C\<close>
  mention none of the excluded keywords: the input \<open>dev\<close> returns \<open>A\<close> and \<open>C\<close>; the
  input \<open>go\<close> narrows the collection to \<open>A\<close> and \<open>C\<close> and restarts the selection on
  it, so that it returns \<open>A\<close> and \<open>C\<close> when \<open>all\<close> follows and nothing when the empty
  line follows; the input \<open>1\<close>, followed by the empty line, returns \<open>A\<close>.
\<close>

theorem scenario_three_repositories:
  assumes a: "Name a = ''A''" "Language a = ''Go''" "\<not> mentionsExcludedKeyword (Description a)"
    and b: "Name b = ''B''" "Language b = ''HTML''" "Description b = ''''"
    and c: "Name c = ''C''" "Language c = ''Go''" "\<not> mentionsExcludedKeyword (Description c)"
  shows "selectRepositories [a, b, c] [''dev''] = [a, c] \<and>
         tryLanguageFilter [a, b, c] ''go'' = Some [a, c] \<and>
         selectRepositories [a, b, c] (''go'' # lines) = selectRepositories [a, c] lines \<and>
         selectRepositories [a, b, c] [''go'', ''all''] = [a, c] \<and>
         selectRepositories [a, b, c] [''go'', ''''] = [] \<and>
         selectRepositories [a, b, c] [''1'', ''''] = [a]"
proof -
  have trim: "strings_TrimSpace ''dev'' = ''dev''" "strings_TrimSpace ''go'' = ''go''"
    "strings_TrimSpace ''all'' = ''all''" "strings_TrimSpace ''1'' = ''1''"
    by (simp_all add: string_eval)
  have low: "strings_ToLower ''Go'' = ''go''" "strings_ToLower ''HTML'' = ''html''"
    "strings_ToLower ''go'' = ''go''" "strings_ToLower ''1'' = ''1''"
    by (simp_all add: string_eval)
  have names: "\<not> mentionsExcludedKeyword ''A''" "\<not> mentionsExcludedKeyword ''C''"
    by (simp_all add: mentionsExcludedKeyword_def strings_Contains_sublist [symmetric] string_eval)
  have ex: "\<not> excludedFromDev a" "excludedFromDev b" "\<not> excludedFromDev c"
    using a b c names by (simp_all add: excludedFromDev_def low)
  have dev: "selectRepositories [a, b, c] [''dev''] = [a, c]"
    by (simp add: selectRepositories_def selectLoop_dev [OF trim(1)] selectDevRepositories_eq ex)
  have f: "tryLanguageFilter [a, b, c] ''go'' = Some [a, c]"
    using a b c by (simp add: tryLanguageFilter_def low)
  have r: "reachesFilter (strings_TrimSpace ''go'')" "reachesFilter ''1''"
    by (simp_all add: trim reachesFilter_def)
  have go: "selectRepositories [a, b, c] (''go'' # lines) = selectRepositories [a, c] lines"
    for lines
    unfolding selectRepositories_def [of "[a, b, c]"]
    using r(1) f by (intro selectLoop_filter) (simp_all add: trim)
  have go_all: "selectRepositories [a, b, c] [''go'', ''all''] = [a, c]"
    by (simp add: go) (simp add: selectRepositories_def selectLoop_all [OF trim(3)])
  have go_end: "selectRepositories [a, b, c] [''go'', ''''] = []"
    by (simp add: go) (simp add: selectRepositories_def selectLoop_end)
  have no1: "\<not> list_ex (sameLanguage ''1'') [a, b, c]"
    using a b c by (simp add: sameLanguage_def low)
  have p1: "parseSelection ''1'' 3 = [0]"
    by (simp add: parse_eval)
  have one: "selectRepositories [a, b, c] [''1'', ''''] = [a]"
    using selectRepositories_numeric_line [OF trim(4) r(2) no1] by (simp add: p1)
  from dev f go go_all go_end one show ?thesis by blast
qed

theorem scenario_three_repositories_witness:
  "\<not> mentionsExcludedKeyword (Description repoA) \<and>
   \<not> mentionsExcludedKeyword (Description repoC) \<and>
   selectRepositories [repoA, repoB, repoC] [''dev''] = [repoA, repoC] \<and>
   tryLanguageFilter [repoA, repoB, repoC] ''go'' = Some [repoA, repoC] \<and>
   selectRepositories [repoA, repoB, repoC] [''go'', ''all''] = [repoA, repoC] \<and>
   selectRepositories [repoA, repoB, repoC] [''go'', ''''] = [] \<and>
   selectRepositories [repoA, repoB, repoC] [''1'', ''''] = [repoA]"
proof -
  have a: "Name repoA = ''A''" "Language repoA = ''Go''"
    and b: "Name repoB = ''B''" "Language repoB = ''HTML''" "Description repoB = ''''"
    and c: "Name repoC = ''C''" "Language repoC = ''Go''"
    by (simp_all add: sample_repos)
  have da: "\<not> mentionsExcludedKeyword (Description repoA)"
    by (simp add: repoA_def mentionsExcludedKeyword_def strings_Contains_sublist [symmetric]
        string_eval)
  have dc: "\<not> mentionsExcludedKeyword (Description repoC)"
    by (simp add: repoC_def mentionsExcludedKeyword_def strings_Contains_sublist [symmetric]
        string_eval)
  from scenario_three_repositories [OF a da b c dc] da dc
  show ?thesis by blast
qed

section \<open>Properties of the clone orchestration\<close>

subsection \<open>Traces\<close>

lemma world_emit: "world (emit e st) = world st"
  by (simp add: emit_def)

lemma trace_emit: "trace (emit e st) = trace st @ [e]"
  by (simp add: emit_def)

lemma cloneAttempts_append: "cloneAttempts (xs @ ys) = cloneAttempts xs @ cloneAttempts ys"
  by (induction xs rule: cloneAttempts.induct) simp_all

lemma harvestCalls_append: "harvestCalls (xs @ ys) = harvestCalls xs @ harvestCalls ys"
  by (induction xs rule: harvestCalls.induct) simp_all

lemma itemOutcomes_append: "itemOutcomes (xs @ ys) = itemOutcomes xs @ itemOutcomes ys"
  by (induction xs rule: itemOutcomes.induct) simp_all

lemma cloneAttempts_updates: "cloneAttempts (map SubmoduleUpdate names) = []"
  by (induction names) simp_all

lemma harvestCalls_updates: "harvestCalls (map SubmoduleUpdate names) = []"
  by (induction names) simp_all

lemma itemOutcomes_updates: "itemOutcomes (map SubmoduleUpdate names) = []"
  by (induction names) simp_all

subsection \<open>The submodule code only adds submodule updates to the trace\<close>

lemma updateLoop_trace:
  "\<exists>names. trace (snd (updateLoop c submodules st)) = trace st @ map SubmoduleUpdate names"
proof (induction submodules arbitrary: st)
  case Nil
  show ?case by (rule exI [of _ "[]"]) simp
next
  case (Cons submodule submodules)
  obtain res w' where u: "submodule_Update c (world st) submodule = (res, w')"
    by (cases "submodule_Update c (world st) submodule")
  let ?name = "submodule_Name c submodule"
  let ?st' = "emit (SubmoduleUpdate ?name) (st\<lparr>world := w'\<rparr>)"
  show ?case
  proof (cases res)
    case (Some err)
    then have "snd (updateLoop c (submodule # submodules) st) = ?st'"
      using u by simp
    then show ?thesis
      by (intro exI [of _ "[?name]"]) (simp add: trace_emit)
  next
    case None
    then have step: "updateLoop c (submodule # submodules) st = updateLoop c submodules ?st'"
      using u by simp
    from Cons.IH [of ?st'] obtain names where
      "trace (snd (updateLoop c submodules ?st')) = trace ?st' @ map SubmoduleUpdate names" ..
    then show ?thesis
      unfolding step by (intro exI [of _ "?name # names"]) (simp add: trace_emit)
  qed
qed

lemma cultivateSubmodules_trace:
  "\<exists>names. trace (snd (cultivateSubmodules c repo repoPath st)) =
     trace st @ map SubmoduleUpdate names"
proof -
  have triv: "\<exists>names. trace st = trace st @ map SubmoduleUpdate names"
    by (rule exI [of _ "[]"]) simp
  show ?thesis
    unfolding cultivateSubmodules_def
    using triv updateLoop_trace [of c _ st]
    by (simp split: sum.splits)
qed

subsection \<open>\<open>HarvestRepository\<close>\<close>

lemma HarvestRepository_exists:
  assumes "os_Stat c (world st) path"
  shows "HarvestRepository c recursive url path st =
         (Some (''directory '' @ path @ '' already exists''),
          st\<lparr>trace := trace st @ [HarvestCall url path, OsStat path]\<rparr>)"
  using assms by (simp add: HarvestRepository_def Let_def emit_def)

lemma HarvestRepository_cloned:
  assumes "\<not> os_Stat c (world st) path"
    and "git_PlainClone c (world st) path url = (Inr repo, w')"
    and "cloned = st\<lparr>world := w',
           trace := trace st @ [HarvestCall url path, OsStat path, PlainClone path url]\<rparr>"
  shows "HarvestRepository c recursive url path st =
         (if recursive then
            (case cultivateSubmodules c repo path cloned of
               (Some err, st2) \<Rightarrow> (None, emit (Printed (SubmoduleWarning err)) st2)
             | (None, st2) \<Rightarrow> (None, st2))
          else (None, cloned))"
  using assms by (simp add: HarvestRepository_def Let_def emit_def)

lemma HarvestRepository_trace:
  "\<exists>rest. trace (snd (HarvestRepository c recursive url path st)) =
            trace st @ HarvestCall url path # OsStat path # rest \<and>
          harvestCalls rest = [] \<and> itemOutcomes rest = [] \<and>
          cloneAttempts rest = (if os_Stat c (world st) path then [] else [(path, url)])"
proof (cases "os_Stat c (world st) path")
  case True
  show ?thesis
    by (rule exI [of _ "[]"]) (simp add: HarvestRepository_exists [OF True] True)
next
  case False
  obtain res w' where pc: "git_PlainClone c (world st) path url = (res, w')"
    by (cases "git_PlainClone c (world st) path url")
  let ?st = "emit (OsStat path) (emit (HarvestCall url path) st)"
  let ?st1 = "emit (PlainClone path url) (?st\<lparr>world := w'\<rparr>)"
  have tr1: "trace ?st1 = trace st @ [HarvestCall url path, OsStat path, PlainClone path url]"
    by (simp add: emit_def)
  show ?thesis
  proof (cases res)
    case (Inl err)
    then have "snd (HarvestRepository c recursive url path st) = ?st1"
      using False pc by (simp add: HarvestRepository_def Let_def world_emit)
    then show ?thesis
      using False by (intro exI [of _ "[PlainClone path url]"]) (simp add: tr1)
  next
    case (Inr repo)
    show ?thesis
    proof (cases recursive)
      case False
      then have "snd (HarvestRepository c recursive url path st) = ?st1"
        using \<open>\<not> os_Stat c (world st) path\<close> pc Inr
        by (simp add: HarvestRepository_def Let_def world_emit)
      then show ?thesis
        using \<open>\<not> os_Stat c (world st) path\<close>
        by (intro exI [of _ "[PlainClone path url]"]) (simp add: tr1)
    next
      case True
      obtain cres st2 where cs: "cultivateSubmodules c repo path ?st1 = (cres, st2)"
        by (cases "cultivateSubmodules c repo path ?st1")
      from cultivateSubmodules_trace [of c repo path ?st1] cs obtain names where
        tr2: "trace st2 = trace ?st1 @ map SubmoduleUpdate names" by auto
      let ?warn = "case cres of Some err \<Rightarrow> [Printed (SubmoduleWarning err)] | None \<Rightarrow> []"
      have "trace (snd (HarvestRepository c recursive url path st)) = trace st2 @ ?warn"
        using \<open>\<not> os_Stat c (world st) path\<close> pc Inr True cs
        by (simp add: HarvestRepository_def Let_def world_emit trace_emit split: option.splits)
      then have "trace (snd (HarvestRepository c recursive url path st)) =
          trace st @ HarvestCall url path # OsStat path #
            (PlainClone path url # map SubmoduleUpdate names @ ?warn)"
        by (simp add: tr2 tr1)
      moreover have "harvestCalls (PlainClone path url # map SubmoduleUpdate names @ ?warn) = []"
        by (simp add: harvestCalls_append harvestCalls_updates split: option.splits)
      moreover have "itemOutcomes (PlainClone path url # map SubmoduleUpdate names @ ?warn) = []"
        by (simp add: itemOutcomes_append itemOutcomes_updates split: option.splits)
      moreover have "cloneAttempts (PlainClone path url # map SubmoduleUpdate names @ ?warn) =
          [(path, url)]"
        by (simp add: cloneAttempts_append cloneAttempts_updates split: option.splits)
      ultimately show ?thesis
        using \<open>\<not> os_Stat c (world st) path\<close> by auto
    qed
  qed
qed

lemma HarvestRepository_cloneAttempts:
  "cloneAttempts (trace (snd (HarvestRepository c recursive url path st))) =
   cloneAttempts (trace st) @ (if os_Stat c (world st) path then [] else [(path, url)])"
proof -
  from HarvestRepository_trace [of c recursive url path st] obtain rest where
    "trace (snd (HarvestRepository c recursive url path st)) =
       trace st @ HarvestCall url path # OsStat path # rest"
    "cloneAttempts rest = (if os_Stat c (world st) path then [] else [(path, url)])"
    by blast
  then show ?thesis by (simp add: cloneAttempts_append)
qed



subsection \<open>One item and the loop\<close>





subsection \<open>The claims on the clone orchestration\<close>

text \<open>
  Claim C6. For every URL and every destination path that exists (\<open>os.Stat\<close> finds
  it), \<open>HarvestRepository\<close> returns the error \<open>directory ... already exists\<close> at once:
  the world is left as it was and the trace gains the call and the \<open>os.Stat\<close> only. In
  every case the call adds a clone attempt to the trace exactly when the path does
  not exist.
\<close>

theorem existing_path_fails_without_clone:
  "(os_Stat c (world st) path \<longrightarrow>
      HarvestRepository c recursive url path st =
        (Some (''directory '' @ path @ '' already exists''),
         st\<lparr>trace := trace st @ [HarvestCall url path, OsStat path]\<rparr>)) \<and>
   cloneAttempts (trace (snd (HarvestRepository c recursive url path st))) =
     cloneAttempts (trace st) @ (if os_Stat c (world st) path then [] else [(path, url)])"
  using HarvestRepository_exists [of c st path recursive url]
    HarvestRepository_cloneAttempts [of c recursive url path st]
  by simp

theorem existing_path_fails_without_clone_witness:
  "os_Stat sampleWorld (world \<lparr>world = [''/dest/A''], trace = []\<rparr>) ''/dest/A'' \<and>
   HarvestRepository sampleWorld True ''https://github.com/owner/A.git'' ''/dest/A''
       \<lparr>world = [''/dest/A''], trace = []\<rparr> =
     (Some ''directory /dest/A already exists'',
      \<lparr>world = [''/dest/A''],
       trace = [HarvestCall ''https://github.com/owner/A.git'' ''/dest/A'', OsStat ''/dest/A'']\<rparr>) \<and>
   cloneAttempts (trace (snd (HarvestRepository sampleWorld True
       ''https://github.com/owner/A.git'' ''/dest/A'' \<lparr>world = [''/dest/A''], trace = []\<rparr>))) = [] \<and>
   cloneAttempts (trace (snd (HarvestRepository sampleWorld True
       ''https://github.com/owner/A.git'' ''/dest/A'' emptyState))) =
     [(''/dest/A'', ''https://github.com/owner/A.git'')]"
proof -
  have yes: "os_Stat sampleWorld (world \<lparr>world = [''/dest/A''], trace = []\<rparr>) ''/dest/A''"
    by (simp add: sampleWorld_def)
  have no: "\<not> os_Stat sampleWorld (world emptyState) ''/dest/A''"
    by (simp add: sampleWorld_def emptyState_def)
  from existing_path_fails_without_clone [of sampleWorld
      "\<lparr>world = [''/dest/A''], trace = []\<rparr>" "''/dest/A''" True
      "''https://github.com/owner/A.git''"]
    existing_path_fails_without_clone [of sampleWorld emptyState "''/dest/A''" True
      "''https://github.com/owner/A.git''"]
    yes no
  show ?thesis by (simp add: emptyState_def)
qed



text \<open>
  Claim C8. When the destination path does not exist and the clone succeeds,
  \<open>HarvestRepository\<close> returns no error, with or without submodule recursion; with
  recursion, an error of \<open>cultivateSubmodules\<close> only adds the warning to what is
  printed.
\<close>

theorem submodule_failure_is_only_a_warning:
  assumes "\<not> os_Stat c (world st) path"
    and "git_PlainClone c (world st) path url = (Inr repo, w')"
    and "cloned = st\<lparr>world := w',
           trace := trace st @ [HarvestCall url path, OsStat path, PlainClone path url]\<rparr>"
  shows "fst (HarvestRepository c recursive url path st) = None \<and>
         (case cultivateSubmodules c repo path cloned of
            (Some err, st2) \<Rightarrow>
              HarvestRepository c True url path st =
                (None, emit (Printed (SubmoduleWarning err)) st2)
          | (None, st2) \<Rightarrow> HarvestRepository c True url path st = (None, st2))"
proof -
  have "fst (HarvestRepository c recursive url path st) = None"
    by (simp add: HarvestRepository_cloned [OF assms] split: prod.splits option.splits)
  moreover have "case cultivateSubmodules c repo path cloned of
            (Some err, st2) \<Rightarrow>
              HarvestRepository c True url path st =
                (None, emit (Printed (SubmoduleWarning err)) st2)
          | (None, st2) \<Rightarrow> HarvestRepository c True url path st = (None, st2)"
    by (simp add: HarvestRepository_cloned [OF assms] split: prod.splits option.splits)
  ultimately show ?thesis ..
qed

theorem submodule_failure_is_only_a_warning_witness:
  "\<not> os_Stat sampleWorld (world emptyState) ''/dest/A'' \<and>
   git_PlainClone sampleWorld (world emptyState) ''/dest/A'' ''https://github.com/owner/A.git'' =
     (Inr 0, [''/dest/A'']) \<and>
   fst (cultivateSubmodules sampleWorld 0 ''/dest/A''
         \<lparr>world = [''/dest/A''],
          trace = [HarvestCall ''https://github.com/owner/A.git'' ''/dest/A'', OsStat ''/dest/A'',
                   PlainClone ''/dest/A'' ''https://github.com/owner/A.git'']\<rparr>) =
     Some ''failed to cultivate submodule vendor/lib: authentication required'' \<and>
   HarvestRepository sampleWorld True ''https://github.com/owner/A.git'' ''/dest/A'' emptyState =
     (None,
      \<lparr>world = [''/dest/A''],
       trace = [HarvestCall ''https://github.com/owner/A.git'' ''/dest/A'', OsStat ''/dest/A'',
                PlainClone ''/dest/A'' ''https://github.com/owner/A.git'',
                SubmoduleUpdate ''vendor/lib'',
                Printed (SubmoduleWarning
                  ''failed to cultivate submodule vendor/lib: authentication required'')]\<rparr>)"
proof -
  have no: "\<not> os_Stat sampleWorld (world emptyState) ''/dest/A''"
    by (simp add: sampleWorld_def emptyState_def)
  have pc: "git_PlainClone sampleWorld (world emptyState) ''/dest/A''
      ''https://github.com/owner/A.git'' = (Inr 0, [''/dest/A''])"
    by (simp add: sampleWorld_def emptyState_def)
  have cl: "\<lparr>world = [''/dest/A''],
          trace = [HarvestCall ''https://github.com/owner/A.git'' ''/dest/A'', OsStat ''/dest/A'',
                   PlainClone ''/dest/A'' ''https://github.com/owner/A.git'']\<rparr> =
      emptyState\<lparr>world := [''/dest/A''],
        trace := trace emptyState @
          [HarvestCall ''https://github.com/owner/A.git'' ''/dest/A'', OsStat ''/dest/A'',
           PlainClone ''/dest/A'' ''https://github.com/owner/A.git'']\<rparr>"
    by (simp add: emptyState_def)
  have cs: "cultivateSubmodules sampleWorld 0 ''/dest/A''
         \<lparr>world = [''/dest/A''],
          trace = [HarvestCall ''https://github.com/owner/A.git'' ''/dest/A'', OsStat ''/dest/A'',
                   PlainClone ''/dest/A'' ''https://github.com/owner/A.git'']\<rparr> =
      (Some ''failed to cultivate submodule vendor/lib: authentication required'',
       \<lparr>world = [''/dest/A''],
        trace = [HarvestCall ''https://github.com/owner/A.git'' ''/dest/A'', OsStat ''/dest/A'',
                 PlainClone ''/dest/A'' ''https://github.com/owner/A.git'',
                 SubmoduleUpdate ''vendor/lib'']\<rparr>)"
    by (simp add: sampleWorld_def cultivateSubmodules_def emit_def)
  from submodule_failure_is_only_a_warning [OF no pc cl, of True] no pc cs
  show ?thesis by (simp add: emit_def)
qed

end
